theory Spec2Isabelle
  imports
    Complex_Main
    "HOL-Library.Sublist"
    "HOL-Library.Char_ord"
    "HOL-Library.List_Lexorder"
begin

section \<open>The transformer: \<open>filter_data\<close> of \<open>redfin_load.ipynb\<close>\<close>

subsection \<open>Tables\<close>

text \<open>
  \<open>load_redfin_data\<close> reads five columns (\<open>usecols\<close>), so a loaded row is a record of
  five cells. A cell of a text column is a string or null (\<open>NaN\<close>, here \<open>None\<close>);
  \<open>period_end\<close> is read as text (no \<open>parse_dates\<close>), so it is compared as Python compares
  strings: lexicographically by character code, which is the order of \<open>char list\<close> from
  \<open>List_Lexorder\<close> over \<open>Char_ord\<close>. \<open>median_sale_price\<close> is a nullable number; the program
  never computes with it, it only tests it for null and copies it.

  A DataFrame is the list of its rows in order, each with its index label
  (\<open>read_csv\<close> labels them \<open>0, 1, 2, ...\<close>).
\<close>

record row =
  period_end :: "string option"
  region_type :: "string option"
  region_name :: "string option"
  duration :: "string option"
  median_sale_price :: "real option"

type_synonym frame = "(nat \<times> row) list"

text \<open>
  The frame after the projection \<open>[['region_name', 'median_sale_price']]\<close>: two column
  labels and, per row, the index label and the two cells.
\<close>

record frame2 =
  columns :: "string list"
  rows :: "(nat \<times> string option \<times> real option) list"

subsection \<open>The pandas and Python operations the function calls\<close>

text \<open>\<open>Series.max()\<close>: nulls are skipped (\<open>skipna=True\<close>); the result is null when
  nothing is left, in particular on an empty column.\<close>

primrec notna_values :: "'a option list \<Rightarrow> 'a list" where
  "notna_values [] = []"
| "notna_values (x # xs) = (case x of None \<Rightarrow> notna_values xs | Some v \<Rightarrow> v # notna_values xs)"

definition series_max :: "string option list \<Rightarrow> string option" where
  "series_max xs = (case notna_values xs of [] \<Rightarrow> None | y # ys \<Rightarrow> Some (fold max ys y))"

text \<open>Python's \<open>s.replace(old, new)\<close>: every non-overlapping occurrence of \<open>old\<close>, found
  scanning from the left, is replaced. With an empty \<open>old\<close>, \<open>new\<close> is inserted before
  every character and at the end.\<close>

function str_replace :: "string \<Rightarrow> string \<Rightarrow> string \<Rightarrow> string" where
  "str_replace old new s =
     (if old = [] then new @ concat (map (\<lambda>c. c # new) s)
      else if s = [] then []
      else if prefix old s then new @ str_replace old new (drop (length old) s)
      else hd s # str_replace old new (tl s))"
  by pat_completeness auto
termination
  by (relation "measure (\<lambda>(old, new, s). length s)") auto

declare str_replace.simps [simp del]

text \<open>\<open>Series.str.replace(pat, repl, regex=False)\<close>: \<open>n\<close> keeps its default \<open>-1\<close>, so each
  string of the column has all occurrences replaced; a null stays null.\<close>

definition series_str_replace :: "string \<Rightarrow> string \<Rightarrow> string option list \<Rightarrow> string option list" where
  "series_str_replace pat repl ser = map (map_option (str_replace pat repl)) ser"

subsection \<open>The steps of \<open>filter_data\<close>\<close>

text \<open>\<open>max_dt = df['period_end'].max()\<close>, over the frame as loaded.\<close>

definition max_dt :: "frame \<Rightarrow> string option" where
  "max_dt df = series_max (map (\<lambda>(i, r). period_end r) df)"

text \<open>\<open>df.loc[(df['region_type'] == 'county') & (df['duration'] == '12 weeks')]\<close>;
  a null cell equals no string.\<close>

definition loc_county_12_weeks :: "frame \<Rightarrow> frame" where
  "loc_county_12_weeks df =
     filter (\<lambda>(i, r). region_type r = Some ''county'' \<and> duration r = Some ''12 weeks'') df"

text \<open>\<open>.dropna(subset=['median_sale_price'])\<close>\<close>

definition dropna_median_sale_price :: "frame \<Rightarrow> frame" where
  "dropna_median_sale_price df = filter (\<lambda>(i, r). median_sale_price r \<noteq> None) df"

text \<open>\<open>.query("period_end == @max_dt")\<close>: a null never compares equal, neither a null cell
  nor a null \<open>max_dt\<close>.\<close>

definition query_period_end :: "string option \<Rightarrow> frame \<Rightarrow> frame" where
  "query_period_end m df =
     filter (\<lambda>(i, r). case period_end r of None \<Rightarrow> False
                      | Some d \<Rightarrow> (case m of None \<Rightarrow> False | Some d' \<Rightarrow> d = d')) df"

text \<open>\<open>[['region_name', 'median_sale_price']]\<close>\<close>

definition project :: "frame \<Rightarrow> frame2" where
  "project df =
     \<lparr>columns = [''region_name'', ''median_sale_price''],
      rows = map (\<lambda>(i, r). (i, region_name r, median_sale_price r)) df\<rparr>"

text \<open>\<open>df_filtered['region_name']\<close> read, and assigned a series that carries the frame's
  own index (so the assignment is positional).\<close>

definition getitem_region_name :: "frame2 \<Rightarrow> string option list" where
  "getitem_region_name f = map (\<lambda>(i, n, p). n) (rows f)"

definition setitem_region_name :: "frame2 \<Rightarrow> string option list \<Rightarrow> frame2" where
  "setitem_region_name f ser = f\<lparr>rows := map2 (\<lambda>(i, n, p) n'. (i, n', p)) (rows f) ser\<rparr>"

text \<open>The chain of four \<open>.str.replace\<close> calls, in the order of the source.\<close>

definition clean_names :: "string option list \<Rightarrow> string option list" where
  "clean_names ser =
     series_str_replace '' Borough'' ''''
       (series_str_replace '' Census Area'' ''''
         (series_str_replace '' Parish'' ''''
           (series_str_replace '' County'' '''' ser)))"

text \<open>The four substrings the source removes, in its order.\<close>

definition four_substrings :: "string list" where
  "four_substrings = ['' County'', '' Parish'', '' Census Area'', '' Borough'']"

text \<open>\<open>.rename(columns={...})\<close>: a label the mapping knows is replaced, any other is kept.\<close>

definition rename_columns :: "(string \<rightharpoonup> string) \<Rightarrow> frame2 \<Rightarrow> frame2" where
  "rename_columns m f =
     f\<lparr>columns := map (\<lambda>c. case m c of None \<Rightarrow> c | Some c' \<Rightarrow> c') (columns f)\<rparr>"

text \<open>The selection chain of the source, before the projection.\<close>

definition select_rows :: "frame \<Rightarrow> frame" where
  "select_rows df =
     query_period_end (max_dt df) (dropna_median_sale_price (loc_county_12_weeks df))"

definition filter_data :: "frame \<Rightarrow> frame2" where
  "filter_data df =
     (let df_filtered = project (select_rows df);
          df_filtered = setitem_region_name df_filtered
                          (clean_names (getitem_region_name df_filtered))
      in rename_columns [''region_name'' \<mapsto> ''county''] df_filtered)"

text \<open>The four replacements on one name, as \<open>clean_names\<close> applies them to each
  string of the column.\<close>

abbreviation cleaned :: "string \<Rightarrow> string" where
  "cleaned s \<equiv> str_replace '' Borough'' '''' (str_replace '' Census Area'' ''''
         (str_replace '' Parish'' '''' (str_replace '' County'' '''' s)))"

subsection \<open>Example tables\<close>

text \<open>A county row of the 12-week series, and small tables used to instantiate the
  theorems below.\<close>

abbreviation county_row :: "string \<Rightarrow> string \<Rightarrow> real \<Rightarrow> row" where
  "county_row d n p \<equiv>
     \<lparr>period_end = Some d, region_type = Some ''county'', region_name = Some n,
      duration = Some ''12 weeks'', median_sale_price = Some p\<rparr>"

abbreviation two_periods :: frame where
  "two_periods \<equiv>
     [(0, county_row ''2021-01-01'' ''Kings County'' 500000),
      (1, county_row ''2021-01-08'' ''Los Angeles County'' 800000)]"

abbreviation los_angeles :: frame where
  "los_angeles \<equiv> [(0, county_row ''2021-01-08'' ''Los Angeles County'' 800000)]"

abbreviation los_angeles_ca :: frame where
  "los_angeles_ca \<equiv> [(0, county_row ''2021-01-08'' ''Los Angeles County, CA'' 800000)]"

abbreviation metro_row :: row where
  "metro_row \<equiv>
     \<lparr>period_end = Some ''2021-01-08'', region_type = Some ''metro'',
      region_name = Some ''Austin, TX metro area'', duration = Some ''12 weeks'',
      median_sale_price = Some 400000\<rparr>"

abbreviation unpriced_row :: row where
  "unpriced_row \<equiv>
     \<lparr>period_end = Some ''2021-01-08'', region_type = Some ''county'',
      region_name = Some ''Kings County'', duration = Some ''12 weeks'',
      median_sale_price = None\<rparr>"

abbreviation mixed :: frame where
  "mixed \<equiv>
     [(0, county_row ''2021-01-08'' ''Los Angeles County'' 800000),
      (1, metro_row), (2, unpriced_row)]"

abbreviation repeated_suffix :: frame where
  "repeated_suffix \<equiv> [(0, county_row ''2021-01-08'' ''Foo County County'' 1)]"

abbreviation joined_suffix :: frame where
  "joined_suffix \<equiv> [(0, county_row ''2021-01-08'' ''Foo Co Parishunty'' 1)]"

subsection \<open>\<open>filter_data\<close> over a store of objects\<close>

text \<open>
  To say what \<open>filter_data\<close> does to the table it is given, the same steps are run over a
  store of pandas objects: an address is a position in the store, and creating an object
  appends it. Boolean-mask \<open>.loc\<close>, \<open>dropna\<close>, \<open>query\<close>, the column-list selection and
  \<open>rename\<close> (all called without \<open>inplace\<close>) each return a new object; the only write into
  an existing object is the column assignment \<open>df_filtered['region_name'] = ...\<close>, which
  writes into the object the variable \<open>df_filtered\<close> refers to at that point. A read of an
  address that holds no object of the expected kind gives \<open>None\<close>.
\<close>

datatype obj = Frame frame | Frame2 frame2

type_synonym store = "obj list"

definition alloc :: "obj \<Rightarrow> store \<Rightarrow> nat \<times> store" where
  "alloc x h = (length h, h @ [x])"

definition get_frame :: "store \<Rightarrow> nat \<Rightarrow> frame option" where
  "get_frame h a =
     (if a < length h then (case h ! a of Frame df \<Rightarrow> Some df | Frame2 f \<Rightarrow> None) else None)"

definition get_frame2 :: "store \<Rightarrow> nat \<Rightarrow> frame2 option" where
  "get_frame2 h a =
     (if a < length h then (case h ! a of Frame df \<Rightarrow> None | Frame2 f \<Rightarrow> Some f) else None)"

definition filter_data_store :: "nat \<Rightarrow> store \<Rightarrow> (nat \<times> store) option" where
  "filter_data_store a h =
     (case get_frame h a of None \<Rightarrow> None | Some df \<Rightarrow>
      let m = max_dt df;
          (a1, h1) = alloc (Frame (loc_county_12_weeks df)) h
      in case get_frame h1 a1 of None \<Rightarrow> None | Some d1 \<Rightarrow>
      let (a2, h2) = alloc (Frame (dropna_median_sale_price d1)) h1
      in case get_frame h2 a2 of None \<Rightarrow> None | Some d2 \<Rightarrow>
      let (a3, h3) = alloc (Frame (query_period_end m d2)) h2
      in case get_frame h3 a3 of None \<Rightarrow> None | Some d3 \<Rightarrow>
      let (df_filtered, h4) = alloc (Frame2 (project d3)) h3
      in case get_frame2 h4 df_filtered of None \<Rightarrow> None | Some f4 \<Rightarrow>
      let ser = clean_names (getitem_region_name f4);
          h5 = h4[df_filtered := Frame2 (setitem_region_name f4 ser)]
      in case get_frame2 h5 df_filtered of None \<Rightarrow> None | Some f5 \<Rightarrow>
      let (df_renamed, h6) = alloc (Frame2 (rename_columns [''region_name'' \<mapsto> ''county''] f5)) h5
      in Some (df_renamed, h6))"

subsection \<open>What the spec says of the cleaning, for comparison\<close>

text \<open>The spec's words: each substring is removed at its first occurrence only.\<close>

fun spec_remove_first :: "string \<Rightarrow> string \<Rightarrow> string" where
  "spec_remove_first pat [] = []"
| "spec_remove_first pat (c # s) =
     (if prefix pat (c # s) then drop (length pat) (c # s) else c # spec_remove_first pat s)"

definition spec_clean_first :: "string \<Rightarrow> string" where
  "spec_clean_first s =
     spec_remove_first '' Borough''
       (spec_remove_first '' Census Area''
         (spec_remove_first '' Parish''
           (spec_remove_first '' County'' s)))"

section \<open>The fetcher: \<open>fetch_data\<close>\<close>

text \<open>
  The world of the fetcher: the files on disk, which paths \<open>open(path, "wb")\<close> succeeds
  on, and the trace of the input/output calls made so far (\<open>Get u\<close> is one call of
  \<open>requests.get(u)\<close>, whatever it sends while it follows redirects). The remote side is a function
  from the URL to what \<open>requests.get\<close> ends with: a response (the final one, after the
  redirects it follows), or no response at all (a connection failure, a timeout), which
  \<open>requests\<close> raises as an exception that is not an \<open>HTTPError\<close>.
\<close>

datatype exn =
    HTTPError string
  | ConnectionError string
  | OSError string
  | SystemExit exn

record response =
  status_code :: nat
  reason :: string
  url :: string
  content :: string

datatype event = is_Get: Get string | is_Open: Open string | is_Write: Write string string

record world =
  files :: "string \<rightharpoonup> string"
  can_open :: "string \<Rightarrow> bool"
  trace :: "event list"

text \<open>Python's \<open>str\<close> of a non-negative integer.\<close>

function str_nat :: "nat \<Rightarrow> string" where
  "str_nat n =
     (if n < 10 then [char_of (48 + n)]
      else str_nat (n div 10) @ [char_of (48 + n mod 10)])"
  by pat_completeness auto
termination
  by (relation "measure (\<lambda>n. n)") auto

declare str_nat.simps [simp del]

text \<open>\<open>Response.raise_for_status()\<close> of \<open>requests\<close>: an \<open>HTTPError\<close> for a status from
  400 to 599, nothing otherwise.\<close>

definition raise_for_status :: "response \<Rightarrow> exn + unit" where
  "raise_for_status r =
     (let http_error_msg =
        (if 400 \<le> status_code r \<and> status_code r < 500
         then str_nat (status_code r) @ '' Client Error: '' @ reason r @ '' for url: '' @ url r
         else if 500 \<le> status_code r \<and> status_code r < 600
         then str_nat (status_code r) @ '' Server Error: '' @ reason r @ '' for url: '' @ url r
         else [])
      in if http_error_msg \<noteq> [] then Inl (HTTPError http_error_msg) else Inr ())"

definition requests_get :: "(string \<Rightarrow> string + response) \<Rightarrow> string \<Rightarrow> world \<Rightarrow> (exn + response) \<times> world" where
  "requests_get net u w =
     (let w' = w\<lparr>trace := trace w @ [Get u]\<rparr>
      in case net u of Inl msg \<Rightarrow> (Inl (ConnectionError msg), w') | Inr r \<Rightarrow> (Inr r, w'))"

text \<open>\<open>open(filepath, "wb")\<close> truncates the file, or fails with an \<open>OSError\<close>.\<close>

definition open_wb :: "string \<Rightarrow> world \<Rightarrow> (exn + unit) \<times> world" where
  "open_wb path w =
     (let w' = w\<lparr>trace := trace w @ [Open path]\<rparr>
      in if can_open w path then (Inr (), w'\<lparr>files := (files w)(path \<mapsto> [])\<rparr>)
         else (Inl (OSError path), w'))"

definition f_write :: "string \<Rightarrow> string \<Rightarrow> world \<Rightarrow> world" where
  "f_write path data w =
     w\<lparr>files := (files w)(path \<mapsto> data), trace := trace w @ [Write path data]\<rparr>"

text \<open>The body of the \<open>try\<close>: the first exception ends it.\<close>

definition fetch_data_try :: "(string \<Rightarrow> string + response) \<Rightarrow> string \<Rightarrow> string \<Rightarrow> world \<Rightarrow> (exn + unit) \<times> world" where
  "fetch_data_try net u filepath w =
     (case requests_get net u w of
        (Inl e, w1) \<Rightarrow> (Inl e, w1)
      | (Inr r, w1) \<Rightarrow>
          (case raise_for_status r of
             Inl e \<Rightarrow> (Inl e, w1)
           | Inr _ \<Rightarrow>
               (case open_wb filepath w1 of
                  (Inl e, w2) \<Rightarrow> (Inl e, w2)
                | (Inr _, w2) \<Rightarrow> (Inr (), f_write filepath (content r) w2))))"

text \<open>\<open>except requests.exceptions.HTTPError as err: raise SystemExit(err)\<close>; any other
  exception passes through.\<close>

definition fetch_data :: "(string \<Rightarrow> string + response) \<Rightarrow> string \<Rightarrow> string \<Rightarrow> world \<Rightarrow> (exn + unit) \<times> world" where
  "fetch_data net u filepath w =
     (case fetch_data_try net u filepath w of
        (Inl (HTTPError msg), w') \<Rightarrow> (Inl (SystemExit (HTTPError msg)), w')
      | (Inl (ConnectionError msg), w') \<Rightarrow> (Inl (ConnectionError msg), w')
      | (Inl (OSError msg), w') \<Rightarrow> (Inl (OSError msg), w')
      | (Inl (SystemExit e), w') \<Rightarrow> (Inl (SystemExit e), w')
      | (Inr x, w') \<Rightarrow> (Inr x, w'))"

subsection \<open>Example responses\<close>

text \<open>A server that answers every URL with one response, two responses, and a disk that
  already holds a raw file.\<close>

abbreviation serves :: "response \<Rightarrow> string \<Rightarrow> string + response" where
  "serves r \<equiv> (\<lambda>u. Inr r)"

abbreviation not_found :: response where
  "not_found \<equiv> \<lparr>status_code = 404, reason = ''Not Found'', url = ''http://host/data.tsv'', content = ''gone''\<rparr>"

abbreviation multiple_choices :: response where
  "multiple_choices \<equiv> \<lparr>status_code = 300, reason = ''Multiple Choices'', url = ''http://host/data.tsv'', content = ''choose''\<rparr>"

abbreviation old_disk :: world where
  "old_disk \<equiv> \<lparr>files = [''redfin_raw.csv'' \<mapsto> ''old''], can_open = (\<lambda>p. True), trace = []\<rparr>"

section \<open>Facts about the operations\<close>

lemma series_max_Nil: "series_max [] = None"
  by (simp add: series_max_def)

lemma str_replace_Nil: "old \<noteq> [] \<Longrightarrow> str_replace old new [] = []"
  by (simp add: str_replace.simps)

lemma str_replace_hit:
  assumes "old \<noteq> []"
  shows "str_replace old new (old @ v) = new @ str_replace old new v"
  using assms by (subst str_replace.simps) simp

lemma str_replace_miss:
  assumes "old \<noteq> []" and "\<not> prefix old (c # s)"
  shows "str_replace old new (c # s) = c # str_replace old new s"
  using assms by (subst str_replace.simps) simp

lemma str_replace_no_occurrence:
  assumes "old \<noteq> []" and "\<not> sublist old s"
  shows "str_replace old new s = s"
  using assms(2)
proof (induction s)
  case Nil
  show ?case by (simp add: str_replace_Nil assms(1))
next
  case (Cons c s)
  from Cons.prems have np: "\<not> prefix old (c # s)" and ns: "\<not> sublist old s"
    by (simp_all add: sublist_Cons_right)
  show ?case by (simp add: str_replace_miss[OF assms(1) np] Cons.IH[OF ns])
qed

lemma prefix_before_occurrence:
  assumes "old \<noteq> []" and "prefix old (u @ old @ v)" and "u \<noteq> []"
  shows "sublist old (u @ butlast old)"
proof -
  have len: "length old \<le> length (u @ butlast old)"
    using assms(1,3) by (cases u) (simp_all)
  have "u @ old @ v = (u @ butlast old) @ (last old # v)"
    using assms(1) by (metis append.assoc append_Cons append_Nil append_butlast_last_id)
  with assms(2) have "prefix old ((u @ butlast old) @ (last old # v))" by simp
  with len have "prefix old (u @ butlast old)"
    by (metis prefix_length_prefix prefixI)
  then show ?thesis by (rule prefix_imp_sublist)
qed

lemma str_replace_leftmost:
  assumes "old \<noteq> []" and "\<not> sublist old (u @ butlast old)"
  shows "str_replace old new (u @ old @ v) = u @ new @ str_replace old new v"
  using assms(2)
proof (induction u)
  case Nil
  show ?case by (simp add: str_replace_hit[OF assms(1)])
next
  case (Cons c u)
  have np: "\<not> prefix old (c # (u @ old @ v))"
    using prefix_before_occurrence[OF assms(1), of "c # u" v] Cons.prems by auto
  have ns: "\<not> sublist old (u @ butlast old)"
    using Cons.prems by (simp add: sublist_Cons_right)
  show ?case
    using str_replace_miss[OF assms(1) np, of new] Cons.IH[OF ns] by simp
qed

lemma fold_max_Max: "fold max ys (y::'a::linorder) = Max (set (y # ys))"
  by (rule Max.set_eq_fold[symmetric])

lemma set_notna_values: "set (notna_values xs) = {v. Some v \<in> set xs}"
  by (induction xs) (auto split: option.splits)

lemma series_max_eq:
  "series_max xs = (if {v. Some v \<in> set xs} = {} then None else Some (Max {v. Some v \<in> set xs}))"
proof (cases "notna_values xs")
  case Nil
  then have "{v. Some v \<in> set xs} = {}" using set_notna_values[of xs] by simp
  with Nil show ?thesis by (simp add: series_max_def)
next
  case (Cons y ys)
  then have s: "{v. Some v \<in> set xs} = set (y # ys)" using set_notna_values[of xs] by simp
  show ?thesis unfolding s using Cons by (simp add: series_max_def fold_max_Max del: Max_insert)
  qed

lemma rows_filter_data:
  "rows (filter_data df) =
     map (\<lambda>(i, r). (i, map_option (\<lambda>s. str_replace '' Borough'' '''' (str_replace '' Census Area'' ''''
         (str_replace '' Parish'' '''' (str_replace '' County'' '''' s)))) (region_name r), median_sale_price r))
       (select_rows df)"
  by (simp add: filter_data_def Let_def rename_columns_def setitem_region_name_def
      getitem_region_name_def project_def clean_names_def series_str_replace_def
      zip_map_map  option.map_comp comp_def case_prod_unfold zip_same_conv_map)

lemma columns_filter_data: "columns (filter_data df) = [''county'', ''median_sale_price'']"
  by (simp add: filter_data_def Let_def rename_columns_def setitem_region_name_def project_def)

lemma select_rows_filter:
  "select_rows df = filter (\<lambda>(i, r). region_type r = Some ''county'' \<and> duration r = Some ''12 weeks''
      \<and> median_sale_price r \<noteq> None \<and> period_end r \<noteq> None \<and> period_end r = max_dt df) df"
  unfolding select_rows_def query_period_end_def dropna_median_sale_price_def loc_county_12_weeks_def
  by (auto simp: filter_filter  intro!: filter_cong split: option.splits)

lemma four_nonempty: "p \<in> set four_substrings \<Longrightarrow> p \<noteq> []"
  by (auto simp: four_substrings_def)

lemma tails_incomparable_all:
  "\<forall>q \<in> set four_substrings. \<forall>j \<in> set [1..<length q]. \<forall>p \<in> set four_substrings.
     \<not> prefix (drop j q) p \<and> \<not> prefix p (drop j q)"
  by code_simp

lemma tails_incomparable:
  "q \<in> set four_substrings \<Longrightarrow> j \<in> set [1..<length q] \<Longrightarrow> p \<in> set four_substrings \<Longrightarrow>
     \<not> prefix (drop j q) p \<and> \<not> prefix p (drop j q)"
  by (rule tails_incomparable_all[rule_format])

lemma four_not_nested_all:
  "\<forall>p \<in> set four_substrings. \<forall>w \<in> set four_substrings. p \<noteq> w \<longrightarrow> \<not> sublist p w"
  by code_simp

lemma four_not_nested:
  "p \<in> set four_substrings \<Longrightarrow> w \<in> set four_substrings \<Longrightarrow> p \<noteq> w \<Longrightarrow> \<not> sublist p w"
  by (rule four_not_nested_all[rule_format])

lemma tail_not_prefix:
  assumes ok: "\<forall>w \<in> set ws. w \<in> set four_substrings \<or> w = [] \<or>
      (\<forall>q \<in> set four_substrings. \<forall>j \<in> {1..<length q}. \<not> prefix (drop j q) w \<and> \<not> prefix w (drop j q))"
    and q: "q \<in> set four_substrings" and j: "0 < j" "j < length q"
  shows "\<not> prefix (drop j q) (concat ws)"
  using ok
proof (induction ws)
  case Nil
  from j show ?case by simp
next
  case (Cons w ws)
  have rest: "\<not> prefix (drop j q) (concat ws)" using Cons by simp
  have jj: "j \<in> set [1..<length q]" "j \<in> {1..<length q}" using j by simp_all
  show ?case
  proof
    assume "prefix (drop j q) (concat (w # ws))"
    then have "prefix (drop j q) w \<or> (\<exists>us. drop j q = w @ us \<and> prefix us (concat ws))"
      by (simp add: prefix_append)
    then have cmp: "prefix (drop j q) w \<or> prefix w (drop j q)" by auto
    from Cons.prems have "w \<in> set four_substrings \<or> w = [] \<or>
      (\<forall>q \<in> set four_substrings. \<forall>j \<in> {1..<length q}. \<not> prefix (drop j q) w \<and> \<not> prefix w (drop j q))"
      by simp
    then consider (pat) "w \<in> set four_substrings" | (emp) "w = []"
      | (plain) "\<forall>q \<in> set four_substrings. \<forall>j \<in> {1..<length q}. \<not> prefix (drop j q) w \<and> \<not> prefix w (drop j q)"
      by blast
    then show False
    proof cases
      case pat
      from tails_incomparable[OF q jj(1) pat] have "\<not> prefix (drop j q) w \<and> \<not> prefix w (drop j q)" .
      with cmp show False by blast
    next
      case emp
      with \<open>prefix (drop j q) (concat (w # ws))\<close> rest show False by simp
    next
      case plain
      with q jj(2) have "\<not> prefix (drop j q) w \<and> \<not> prefix w (drop j q)" by blast
      with cmp show False by blast
    qed
  qed
qed

lemma str_replace_skip:
  assumes "p \<noteq> []" and "\<forall>k<length u. \<not> prefix p (drop k u @ rest)"
  shows "str_replace p new (u @ rest) = u @ str_replace p new rest"
  using assms(2)
proof (induction u)
  case Nil
  show ?case by simp
next
  case (Cons c u)
  from Cons.prems have "\<not> prefix p (drop 0 (c # u) @ rest)" by blast
  then have np: "\<not> prefix p (c # (u @ rest))" by simp
  have "\<forall>k<length u. \<not> prefix p (drop k u @ rest)"
  proof (intro allI impI)
    fix k assume "k < length u"
    then have "Suc k < length (c # u)" by simp
    with Cons.prems have "\<not> prefix p (drop (Suc k) (c # u) @ rest)" by blast
    then show "\<not> prefix p (drop k u @ rest)" by simp
  qed
  from Cons.IH[OF this] str_replace_miss[OF assms(1) np, of new] show ?case by simp
qed

lemma no_start_inside:
  assumes p: "p \<in> set four_substrings"
    and w: "w \<in> set four_substrings \<or> (\<forall>q \<in> set four_substrings. \<not> sublist q w)"
    and ne: "w \<noteq> p"
    and ok: "\<forall>w \<in> set ws. w \<in> set four_substrings \<or> w = [] \<or>
      (\<forall>q \<in> set four_substrings. \<forall>j \<in> {1..<length q}. \<not> prefix (drop j q) w \<and> \<not> prefix w (drop j q))"
    and k: "k < length w"
  shows "\<not> prefix p (drop k w @ concat ws)"
proof
  assume "prefix p (drop k w @ concat ws)"
  then have d: "prefix p (drop k w) \<or> (\<exists>us. p = drop k w @ us \<and> prefix us (concat ws))"
    by (simp add: prefix_append)
  show False
  proof (cases "prefix p (drop k w)")
    case True
    then obtain zs where "drop k w = p @ zs" by (rule prefixE)
    then have "take k w @ p @ zs = w" by (metis append_take_drop_id)
    then have s: "sublist p w" by (metis sublist_appendI)
    from w show False
    proof
      assume "w \<in> set four_substrings"
      from four_not_nested[OF p this] ne s show False by blast
    next
      assume "\<forall>q \<in> set four_substrings. \<not> sublist q w"
      with p s show False by blast
    qed
  next
    case False
    with d obtain us where us: "p = drop k w @ us" "prefix us (concat ws)" by blast
    with False have une: "us \<noteq> []" by auto
    let ?j = "length (drop k w)"
    have j0: "0 < ?j" using k by simp
    have "length p = ?j + length us" using arg_cong[OF us(1), of length] by simp
    with une have jl: "?j < length p" by simp
    have "drop ?j p = us" using arg_cong[OF us(1), of "drop ?j"] by simp
    with tail_not_prefix[OF ok p j0 jl] us(2) show False by simp
  qed
qed

lemma pass_pieces:
  assumes p: "p \<in> set four_substrings"
  shows "(\<forall>w \<in> set ws. w \<in> set four_substrings \<or> (\<forall>q \<in> set four_substrings. \<not> sublist q w)) \<Longrightarrow>
    (\<forall>w \<in> set (tl ws). w \<in> set four_substrings \<or> w = [] \<or>
      (\<forall>q \<in> set four_substrings. \<forall>j \<in> {1..<length q}. \<not> prefix (drop j q) w \<and> \<not> prefix w (drop j q))) \<Longrightarrow>
    str_replace p [] (concat ws) = concat (filter (\<lambda>w. w \<noteq> p) ws)"
proof (induction ws)
  case Nil
  from p show ?case by (simp add: str_replace_Nil four_nonempty)
next
  case (Cons w ws)
  have pne: "p \<noteq> []" using p by (rule four_nonempty)
  have tails: "\<forall>w \<in> set ws. w \<in> set four_substrings \<or> w = [] \<or>
      (\<forall>q \<in> set four_substrings. \<forall>j \<in> {1..<length q}. \<not> prefix (drop j q) w \<and> \<not> prefix w (drop j q))"
    using Cons.prems(2) by simp
  have pieces: "\<forall>w \<in> set ws. w \<in> set four_substrings \<or> (\<forall>q \<in> set four_substrings. \<not> sublist q w)"
    using Cons.prems(1) by simp
  have tails': "\<forall>w \<in> set (tl ws). w \<in> set four_substrings \<or> w = [] \<or>
      (\<forall>q \<in> set four_substrings. \<forall>j \<in> {1..<length q}. \<not> prefix (drop j q) w \<and> \<not> prefix w (drop j q))"
    using tails by (cases ws) simp_all
  note IH = Cons.IH[OF pieces tails']
  show ?case
  proof (cases "w = p")
    case True
    with str_replace_hit[OF pne, of "[]" "concat ws"] IH show ?thesis by simp
  next
    case False
    have w: "w \<in> set four_substrings \<or> (\<forall>q \<in> set four_substrings. \<not> sublist q w)"
      using Cons.prems(1) by simp
    have "\<forall>k<length w. \<not> prefix p (drop k w @ concat ws)"
      using no_start_inside[OF p w False tails] by blast
    from str_replace_skip[OF pne this, of "[]"] IH False show ?thesis by simp
  qed
qed

lemma set_tl_filter: "set (tl (filter P ws)) \<subseteq> set (tl ws)"
proof (cases ws)
  case Nil
  then show ?thesis by simp
next
  case (Cons w ws')
  have "set (tl (filter P ws')) \<subseteq> set (filter P ws')" by (cases "filter P ws'") auto
  then have "set (tl (filter P ws')) \<subseteq> set ws'" by auto
  with Cons show ?thesis by auto
qed

lemma cleaned_pieces:
  assumes pieces: "\<forall>w \<in> set ws. w \<in> set four_substrings \<or> (\<forall>q \<in> set four_substrings. \<not> sublist q w)"
    and tails: "\<forall>w \<in> set (tl ws). w \<in> set four_substrings \<or> w = [] \<or>
      (\<forall>q \<in> set four_substrings. \<forall>j \<in> {1..<length q}. \<not> prefix (drop j q) w \<and> \<not> prefix w (drop j q))"
  shows "cleaned (concat ws) = concat (filter (\<lambda>w. w \<notin> set four_substrings) ws)"
proof -
  let ?f1 = "filter (\<lambda>w. w \<noteq> '' County'') ws"
  let ?f2 = "filter (\<lambda>w. w \<noteq> '' Parish'') ?f1"
  let ?f3 = "filter (\<lambda>w. w \<noteq> '' Census Area'') ?f2"
  let ?f4 = "filter (\<lambda>w. w \<noteq> '' Borough'') ?f3"
  have mem: "'' County'' \<in> set four_substrings" "'' Parish'' \<in> set four_substrings"
    "'' Census Area'' \<in> set four_substrings" "'' Borough'' \<in> set four_substrings"
    by (simp_all add: four_substrings_def)
  have inv: "\<And>P xs. set xs \<subseteq> set ws \<Longrightarrow> set (tl xs) \<subseteq> set (tl ws) \<Longrightarrow>
      (\<forall>w \<in> set xs. w \<in> set four_substrings \<or> (\<forall>q \<in> set four_substrings. \<not> sublist q w)) \<and>
      (\<forall>w \<in> set (tl xs). w \<in> set four_substrings \<or> w = [] \<or>
        (\<forall>q \<in> set four_substrings. \<forall>j \<in> {1..<length q}. \<not> prefix (drop j q) w \<and> \<not> prefix w (drop j q)))"
    using pieces tails by blast
  have s1: "set ?f1 \<subseteq> set ws" "set (tl ?f1) \<subseteq> set (tl ws)" using set_tl_filter[of _ ws] by auto
  have s2: "set ?f2 \<subseteq> set ws" "set (tl ?f2) \<subseteq> set (tl ws)"
    using s1 set_tl_filter[of "\<lambda>w. w \<noteq> '' Parish''" ?f1] by auto
  have s3: "set ?f3 \<subseteq> set ws" "set (tl ?f3) \<subseteq> set (tl ws)"
    using s2 set_tl_filter[of "\<lambda>w. w \<noteq> '' Census Area''" ?f2] by auto
  have p1: "str_replace '' County'' [] (concat ws) = concat ?f1"
    by (rule pass_pieces[OF mem(1) pieces tails])
  have p2: "str_replace '' Parish'' [] (concat ?f1) = concat ?f2"
    using inv[OF s1] by (intro pass_pieces[OF mem(2)]) blast+
  have p3: "str_replace '' Census Area'' [] (concat ?f2) = concat ?f3"
    using inv[OF s2] by (intro pass_pieces[OF mem(3)]) blast+
  have p4: "str_replace '' Borough'' [] (concat ?f3) = concat ?f4"
    using inv[OF s3] by (intro pass_pieces[OF mem(4)]) blast+
  have "?f4 = filter (\<lambda>w. w \<notin> set four_substrings) ws"
    by (simp add: four_substrings_def)
  with p1 p2 p3 p4 show ?thesis by simp
qed

lemma chunks_free:
  assumes q: "q \<in> set four_substrings"
  shows "(\<forall>w \<in> set cs. \<not> sublist q w) \<Longrightarrow>
    (\<forall>w \<in> set (tl cs). w \<in> set four_substrings \<or> w = [] \<or>
      (\<forall>q \<in> set four_substrings. \<forall>j \<in> {1..<length q}. \<not> prefix (drop j q) w \<and> \<not> prefix w (drop j q))) \<Longrightarrow>
    \<not> sublist q (concat cs)"
proof (induction cs)
  case Nil
  from four_nonempty[OF q] show ?case by simp
next
  case (Cons c cs)
  have tails: "\<forall>w \<in> set cs. w \<in> set four_substrings \<or> w = [] \<or>
      (\<forall>q \<in> set four_substrings. \<forall>j \<in> {1..<length q}. \<not> prefix (drop j q) w \<and> \<not> prefix w (drop j q))"
    using Cons.prems(2) by simp
  have tails': "\<forall>w \<in> set (tl cs). w \<in> set four_substrings \<or> w = [] \<or>
      (\<forall>q \<in> set four_substrings. \<forall>j \<in> {1..<length q}. \<not> prefix (drop j q) w \<and> \<not> prefix w (drop j q))"
    using tails by (cases cs) simp_all
  have free: "\<forall>w \<in> set cs. \<not> sublist q w" using Cons.prems(1) by simp
  have nc: "\<not> sublist q c" using Cons.prems(1) by simp
  have nr: "\<not> sublist q (concat cs)" by (rule Cons.IH[OF free tails'])
  show ?case
  proof
    assume "sublist q (concat (c # cs))"
    then have "sublist q (c @ concat cs)" by simp
    with nc nr obtain xs1 xs2 where x: "q = xs1 @ xs2" "suffix xs1 c" "prefix xs2 (concat cs)"
      unfolding sublist_append by blast
    have "xs1 \<noteq> []" using x(1,3) nr by auto
    moreover have "xs2 \<noteq> []" using x(1,2) nc by auto
    ultimately have j0: "0 < length xs1" and jl: "length xs1 < length q" using x(1) by simp_all
    have "drop (length xs1) q = xs2" using x(1) by simp
    with tail_not_prefix[OF tails q j0 jl] x(3) show False by simp
  qed
qed

lemma pieces_result_free:
  assumes pieces: "\<forall>w \<in> set ws. w \<in> set four_substrings \<or> (\<forall>q \<in> set four_substrings. \<not> sublist q w)"
    and tails: "\<forall>w \<in> set (tl ws). w \<in> set four_substrings \<or> w = [] \<or>
      (\<forall>q \<in> set four_substrings. \<forall>j \<in> {1..<length q}. \<not> prefix (drop j q) w \<and> \<not> prefix w (drop j q))"
    and q: "q \<in> set four_substrings"
  shows "\<not> sublist q (concat (filter (\<lambda>w. w \<notin> set four_substrings) ws))"
proof (rule chunks_free[OF q])
  show "\<forall>w \<in> set (filter (\<lambda>w. w \<notin> set four_substrings) ws). \<not> sublist q w"
    using pieces q by auto
  show "\<forall>w \<in> set (tl (filter (\<lambda>w. w \<notin> set four_substrings) ws)).
      w \<in> set four_substrings \<or> w = [] \<or>
      (\<forall>q \<in> set four_substrings. \<forall>j \<in> {1..<length q}. \<not> prefix (drop j q) w \<and> \<not> prefix w (drop j q))"
    using tails set_tl_filter[of "\<lambda>w. w \<notin> set four_substrings" ws] by blast
qed

lemma max_dt_cases:
  "(case max_dt df of
      None \<Rightarrow> (\<forall>(i, r) \<in> set df. period_end r = None)
    | Some m \<Rightarrow> (\<exists>(i, r) \<in> set df. period_end r = Some m) \<and>
               (\<forall>(i, r) \<in> set df. \<forall>d. period_end r = Some d \<longrightarrow> d \<le> m))"
proof -
  let ?S = "{v. Some v \<in> set (map (\<lambda>(i, r). period_end r) df)}"
  have fin: "finite ?S"
  proof -
    have "?S = set (notna_values (map (\<lambda>(i, r). period_end r) df))"
      by (simp only: set_notna_values)
    then show ?thesis by (simp only: finite_set)
  qed
  show ?thesis
  proof (cases "?S = {}")
    case True
    then have "max_dt df = None" by (simp add: max_dt_def series_max_eq)
    moreover have "\<forall>(i, r) \<in> set df. period_end r = None"
    proof (clarify, rule ccontr)
      fix i r assume "(i, r) \<in> set df" "period_end r \<noteq> None"
      then obtain d where "period_end r = Some d" by auto
      with \<open>(i, r) \<in> set df\<close> have "d \<in> ?S" by force
      with True show False by simp
    qed
    ultimately show ?thesis by simp
  next
    case False
    then have m: "max_dt df = Some (Max ?S)" by (simp add: max_dt_def series_max_eq)
    have "Max ?S \<in> ?S" using fin False by (rule Max_in)
    then have a: "\<exists>(i, r) \<in> set df. period_end r = Some (Max ?S)" by force
    have b: "\<forall>(i, r) \<in> set df. \<forall>d. period_end r = Some d \<longrightarrow> d \<le> Max ?S"
    proof (clarify)
      fix i r d assume "(i, r) \<in> set df" "period_end r = Some d"
      then have "d \<in> ?S" by force
      then show "d \<le> Max ?S" using fin by simp
    qed
    from m a b show ?thesis by simp
  qed
qed

lemma set_rows_filter_data:
  "(i, c, p) \<in> set (rows (filter_data df)) \<Longrightarrow>
     \<exists>r. (i, r) \<in> set (select_rows df) \<and> p = median_sale_price r \<and>
         c = map_option (\<lambda>s. str_replace '' Borough'' '''' (str_replace '' Census Area'' ''''
               (str_replace '' Parish'' '''' (str_replace '' County'' '''' s)))) (region_name r)"
  by (auto simp: rows_filter_data)

lemma set_select_rows:
  "(i, r) \<in> set (select_rows df) \<longleftrightarrow>
     (i, r) \<in> set df \<and> region_type r = Some ''county'' \<and> duration r = Some ''12 weeks'' \<and>
     median_sale_price r \<noteq> None \<and> period_end r \<noteq> None \<and> period_end r = max_dt df"
  by (auto simp: select_rows_filter)

lemma series_max_const:
  assumes "xs \<noteq> []" and "\<forall>x \<in> set xs. x = Some m"
  shows "series_max xs = Some m"
proof -
  have "{v. Some v \<in> set xs} = {m}" using assms by (cases xs) auto
  then show ?thesis by (simp add: series_max_eq)
qed

lemma max_dt_select_rows:
  assumes "select_rows df \<noteq> []"
  shows "max_dt (select_rows df) = max_dt df"
proof -
  from assms obtain i r where "(i, r) \<in> set (select_rows df)" by (cases "select_rows df") auto
  then have "period_end r \<noteq> None \<and> period_end r = max_dt df"
    unfolding set_select_rows by blast
  then obtain m where m: "max_dt df = Some m" by (metis not_None_eq)
  have "\<forall>x \<in> set (map (\<lambda>(i, r). period_end r) (select_rows df)). x = Some m"
    using m by (auto simp: set_select_rows)
  with assms have "series_max (map (\<lambda>(i, r). period_end r) (select_rows df)) = Some m"
    by (intro series_max_const) simp_all
  with m show ?thesis by (simp add: max_dt_def)
qed

lemma select_rows_idem: "select_rows (select_rows df) = select_rows df"
proof (cases "select_rows df = []")
  case True
  then show ?thesis by (simp add: select_rows_filter)
next
  case False
  have "select_rows (select_rows df) =
      filter (\<lambda>(i, r). region_type r = Some ''county'' \<and> duration r = Some ''12 weeks''
      \<and> median_sale_price r \<noteq> None \<and> period_end r \<noteq> None \<and> period_end r = max_dt df) (select_rows df)"
    by (subst select_rows_filter) (simp only: max_dt_select_rows[OF False])
  also have "\<dots> = select_rows df"
    by (rule filter_True) (use set_select_rows[of _ _ df] in blast)
  finally show ?thesis .
qed

lemma filter_data_cong: "select_rows a = select_rows b \<Longrightarrow> filter_data a = filter_data b"
  by (simp add: filter_data_def)

lemma rows_mixed: "rows (filter_data mixed) = [(0, Some ''Los Angeles'', Some 800000)]"
  by code_simp

lemma filter_data_store_eq:
  assumes "a < length h" and "h ! a = Frame df"
  shows "filter_data_store a h =
     Some (length h + 4,
       h @ [Frame (loc_county_12_weeks df),
            Frame (dropna_median_sale_price (loc_county_12_weeks df)),
            Frame (select_rows df),
            Frame2 (setitem_region_name (project (select_rows df))
                      (clean_names (getitem_region_name (project (select_rows df))))),
            Frame2 (filter_data df)])"
  using assms
  by (simp add: filter_data_store_def get_frame_def get_frame2_def alloc_def Let_def
      nth_append select_rows_def filter_data_def list_update_append)

lemma str_nat_not_Nil: "str_nat n \<noteq> []"
  by (subst str_nat.simps) simp

lemma raise_for_status_error:
  assumes "400 \<le> status_code r" and "status_code r < 600"
  shows "\<exists>msg. raise_for_status r = Inl (HTTPError msg)"
  using assms by (simp add: raise_for_status_def Let_def str_nat_not_Nil)

lemma raise_for_status_ok:
  assumes "\<not> (400 \<le> status_code r \<and> status_code r < 600)"
  shows "raise_for_status r = Inr ()"
  using assms by (auto simp: raise_for_status_def Let_def)

lemma fetch_data_no_response:
  assumes "net u = Inl m"
  shows "fetch_data net u fp w = (Inl (ConnectionError m), w\<lparr>trace := trace w @ [Get u]\<rparr>)"
  using assms by (simp add: fetch_data_def fetch_data_try_def requests_get_def Let_def)

lemma fetch_data_http_error:
  assumes "net u = Inr r" and "raise_for_status r = Inl (HTTPError msg)"
  shows "fetch_data net u fp w = (Inl (SystemExit (HTTPError msg)), w\<lparr>trace := trace w @ [Get u]\<rparr>)"
  using assms by (simp add: fetch_data_def fetch_data_try_def requests_get_def Let_def)

lemma fetch_data_written:
  assumes "net u = Inr r" and "raise_for_status r = Inr ()" and "can_open w fp"
  shows "fetch_data net u fp w =
     (Inr (), w\<lparr>files := (files w)(fp \<mapsto> content r),
               trace := trace w @ [Get u, Open fp, Write fp (content r)]\<rparr>)"
  using assms by (simp add: fetch_data_def fetch_data_try_def requests_get_def Let_def open_wb_def f_write_def)

lemma fetch_data_open_failed:
  assumes "net u = Inr r" and "raise_for_status r = Inr ()" and "\<not> can_open w fp"
  shows "fetch_data net u fp w = (Inl (OSError fp), w\<lparr>trace := trace w @ [Get u, Open fp]\<rparr>)"
  using assms by (simp add: fetch_data_def fetch_data_try_def requests_get_def Let_def open_wb_def)

lemma str_nat_404: "str_nat 404 = ''404''"
  by code_simp

section \<open>The claims\<close>

text \<open>
  C1, as the spec words it, fails. A name in which a substring occurs twice loses both
  occurrences: \<open>"Foo County County"\<close> becomes \<open>"Foo"\<close>, where removing the first
  occurrence only (\<open>spec_clean_first\<close>) would leave \<open>"Foo County"\<close>.
\<close>

theorem first_occurrence_only_counterexample:
  "rows (filter_data repeated_suffix) = [(0, Some ''Foo'', Some 1)]
   \<and> spec_clean_first ''Foo County County'' = ''Foo County''
   \<and> ''Foo'' \<noteq> ''Foo County''"
  by code_simp

text \<open>
  C1, amended. For the rows selected into the output, in order, the county cell is the
  source's \<open>region_name\<close> after the four replacements, applied in the order
  \<open>" County"\<close>, \<open>" Parish"\<close>, \<open>" Census Area"\<close>, \<open>" Borough"\<close> (a null name stays null).
  Each replacement removes every occurrence of its substring, not the first one only,
  case-sensitively and anywhere in the string: a string without the substring is left as
  it is, and a string \<open>u @ old @ v\<close> whose leftmost occurrence of \<open>old\<close> starts right
  after \<open>u\<close> becomes \<open>u\<close> followed by the result of the same removal on the rest \<open>v\<close>.
\<close>

theorem all_occurrences_removed:
  "map (\<lambda>(i, c, p). c) (rows (filter_data df)) =
     map (\<lambda>(i, r). map_option cleaned (region_name r)) (select_rows df)
   \<and> (old \<noteq> [] \<longrightarrow> \<not> sublist old s \<longrightarrow> str_replace old [] s = s)
   \<and> (old \<noteq> [] \<longrightarrow> \<not> sublist old (u @ butlast old) \<longrightarrow>
        str_replace old [] (u @ old @ v) = u @ str_replace old [] v)"
proof (intro conjI impI)
  show "map (\<lambda>(i, c, p). c) (rows (filter_data df)) =
     map (\<lambda>(i, r). map_option cleaned (region_name r)) (select_rows df)"
    by (simp add: rows_filter_data case_prod_unfold comp_def)
next
  assume "old \<noteq> []" "\<not> sublist old s"
  then show "str_replace old [] s = s" by (rule str_replace_no_occurrence)
next
  assume "old \<noteq> []" "\<not> sublist old (u @ butlast old)"
  from str_replace_leftmost[OF this, of "[]" v]
  show "str_replace old [] (u @ old @ v) = u @ str_replace old [] v" by simp
qed

theorem all_occurrences_removed_witness:
  "map (\<lambda>(i, c, p). c) (rows (filter_data repeated_suffix)) = [Some ''Foo'']
   \<and> str_replace '' County'' [] ''Foo'' = ''Foo''
   \<and> str_replace '' County'' [] (''Foo'' @ '' County'' @ '' County'') =
       ''Foo'' @ str_replace '' County'' [] '' County''"
proof -
  note t = all_occurrences_removed[of repeated_suffix "'' County''" "''Foo''" "''Foo''" "'' County''"]
  have h1: "'' County'' \<noteq> []" by simp
  have h2: "\<not> sublist '' County'' ''Foo''" by (simp add: sublist_code)
  have h3: "\<not> sublist '' County'' (''Foo'' @ butlast '' County'')" by (simp add: sublist_code)
  have s: "select_rows repeated_suffix = repeated_suffix"
    by (simp add: select_rows_filter max_dt_def series_max_def)
  have c: "cleaned ''Foo County County'' = ''Foo''" by code_simp
  from t have "map (\<lambda>(i, c, p). c) (rows (filter_data repeated_suffix)) =
     map (\<lambda>(i, r). map_option cleaned (region_name r)) (select_rows repeated_suffix)" by blast
  then have a: "map (\<lambda>(i, c, p). c) (rows (filter_data repeated_suffix)) = [Some ''Foo'']"
    by (simp add: s c)
  from t h1 h2 have b: "str_replace '' County'' [] ''Foo'' = ''Foo''" by blast
  from t h1 h3 have d: "str_replace '' County'' [] (''Foo'' @ '' County'' @ '' County'') =
       ''Foo'' @ str_replace '' County'' [] '' County''" by blast
  from a b d show ?thesis by blast
qed

text \<open>
  C2, as the spec words it, fails. Removing \<open>" Parish"\<close> can join the text on its two
  sides into \<open>" County"\<close>, which the earlier replacement has already passed:
  \<open>"Foo Co Parishunty"\<close> gives the county \<open>"Foo County"\<close>.
\<close>

theorem county_without_suffix_counterexample:
  "rows (filter_data joined_suffix) = [(0, Some ''Foo County'', Some 1)]
   \<and> sublist '' County'' ''Foo County''"
proof -
  have "rows (filter_data joined_suffix) = [(0, Some ''Foo County'', Some 1)]" by code_simp
  moreover have "sublist '' County'' (''Foo'' @ '' County'' @ [])" by (rule sublist_appendI)
  ultimately show ?thesis by simp
qed

text \<open>
  C2, amended. Split the \<open>region_name\<close> of the \<open>k\<close>-th selected source row into pieces, each
  either one of the four substrings or a text that contains none of them (splitting at the
  occurrences does this). Suppose no text after the first piece begins like the ending of
  one of the four substrings: such a text is empty, or it neither starts with a proper
  non-empty ending of one of them nor is itself the start of such an ending. Then no
  removal joins its two sides into one of the substrings: the county of the \<open>k\<close>-th output
  row is the texts joined in order, and it contains none of the four substrings. This
  covers a substring in the middle of the name, at its end, repeated, or several of them.
\<close>

theorem county_of_pieces:
  assumes "k < length (select_rows df)"
    and "select_rows df ! k = (i, r)"
    and "region_name r = Some (concat ws)"
    and "\<forall>w \<in> set ws. w \<in> set four_substrings \<or> (\<forall>q \<in> set four_substrings. \<not> sublist q w)"
    and "\<forall>w \<in> set (tl ws). w \<in> set four_substrings \<or> w = [] \<or>
      (\<forall>q \<in> set four_substrings. \<forall>j \<in> {1..<length q}.
         \<not> prefix (drop j q) w \<and> \<not> prefix w (drop j q))"
  shows "rows (filter_data df) ! k =
      (i, Some (concat (filter (\<lambda>w. w \<notin> set four_substrings) ws)), median_sale_price r)
    \<and> (\<forall>q \<in> set four_substrings.
         \<not> sublist q (concat (filter (\<lambda>w. w \<notin> set four_substrings) ws)))"
proof
  have "cleaned (concat ws) = concat (filter (\<lambda>w. w \<notin> set four_substrings) ws)"
    by (rule cleaned_pieces[OF assms(4,5)])
  with assms(1-3) show "rows (filter_data df) ! k =
      (i, Some (concat (filter (\<lambda>w. w \<notin> set four_substrings) ws)), median_sale_price r)"
    by (simp add: rows_filter_data)
  show "\<forall>q \<in> set four_substrings.
         \<not> sublist q (concat (filter (\<lambda>w. w \<notin> set four_substrings) ws))"
    using pieces_result_free[OF assms(4,5)] by blast
qed

theorem county_of_pieces_witness:
  "0 < length (select_rows los_angeles_ca)
   \<and> select_rows los_angeles_ca ! 0 = (0, county_row ''2021-01-08'' ''Los Angeles County, CA'' 800000)
   \<and> region_name (county_row ''2021-01-08'' ''Los Angeles County, CA'' 800000) =
        Some (concat [''Los Angeles'', '' County'', '', CA''])
   \<and> rows (filter_data los_angeles_ca) ! 0 = (0, Some ''Los Angeles, CA'', Some 800000)
   \<and> \<not> sublist '' County'' ''Los Angeles, CA'' \<and> \<not> sublist '' Parish'' ''Los Angeles, CA''
   \<and> \<not> sublist '' Census Area'' ''Los Angeles, CA'' \<and> \<not> sublist '' Borough'' ''Los Angeles, CA''
   \<and> 0 < length (select_rows repeated_suffix)
   \<and> select_rows repeated_suffix ! 0 = (0, county_row ''2021-01-08'' ''Foo County County'' 1)
   \<and> region_name (county_row ''2021-01-08'' ''Foo County County'' 1) =
        Some (concat [''Foo'', '' County'', '' County''])
   \<and> rows (filter_data repeated_suffix) ! 0 = (0, Some ''Foo'', Some 1)"
proof -
  let ?ws = "[''Los Angeles'', '' County'', '', CA'']"
  have s: "select_rows los_angeles_ca = los_angeles_ca"
    by (simp add: select_rows_filter max_dt_def series_max_def)
  have h1: "0 < length (select_rows los_angeles_ca)"
    and h2: "select_rows los_angeles_ca ! 0 = (0, county_row ''2021-01-08'' ''Los Angeles County, CA'' 800000)"
    by (simp_all add: s)
  have h3: "region_name (county_row ''2021-01-08'' ''Los Angeles County, CA'' 800000) = Some (concat ?ws)"
    by simp
  have h4: "\<forall>w \<in> set ?ws. w \<in> set four_substrings \<or> (\<forall>q \<in> set four_substrings. \<not> sublist q w)"
    by code_simp
  have h5: "\<forall>w \<in> set (tl ?ws). w \<in> set four_substrings \<or> w = [] \<or>
      (\<forall>q \<in> set four_substrings. \<forall>j \<in> {1..<length q}.
         \<not> prefix (drop j q) w \<and> \<not> prefix w (drop j q))"
    by code_simp
  have f: "concat (filter (\<lambda>w. w \<notin> set four_substrings) ?ws) = ''Los Angeles, CA''"
    by (simp add: four_substrings_def)
  have m: "'' County'' \<in> set four_substrings" "'' Parish'' \<in> set four_substrings"
    "'' Census Area'' \<in> set four_substrings" "'' Borough'' \<in> set four_substrings"
    by (simp_all add: four_substrings_def)
  note t = county_of_pieces[OF h1 h2 h3 h4 h5, unfolded f]
  from t have a: "rows (filter_data los_angeles_ca) ! 0 = (0, Some ''Los Angeles, CA'', Some 800000)"
    by simp
  from t m have b: "\<not> sublist '' County'' ''Los Angeles, CA''" "\<not> sublist '' Parish'' ''Los Angeles, CA''"
    "\<not> sublist '' Census Area'' ''Los Angeles, CA''" "\<not> sublist '' Borough'' ''Los Angeles, CA''"
    by blast+
  let ?vs = "[''Foo'', '' County'', '' County'']"
  have s': "select_rows repeated_suffix = repeated_suffix"
    by (simp add: select_rows_filter max_dt_def series_max_def)
  have g1: "0 < length (select_rows repeated_suffix)"
    and g2: "select_rows repeated_suffix ! 0 = (0, county_row ''2021-01-08'' ''Foo County County'' 1)"
    by (simp_all add: s')
  have g3: "region_name (county_row ''2021-01-08'' ''Foo County County'' 1) = Some (concat ?vs)"
    by simp
  have g4: "\<forall>w \<in> set ?vs. w \<in> set four_substrings \<or> (\<forall>q \<in> set four_substrings. \<not> sublist q w)"
    by code_simp
  have g5: "\<forall>w \<in> set (tl ?vs). w \<in> set four_substrings \<or> w = [] \<or>
      (\<forall>q \<in> set four_substrings. \<forall>j \<in> {1..<length q}.
         \<not> prefix (drop j q) w \<and> \<not> prefix w (drop j q))"
    by code_simp
  have f': "concat (filter (\<lambda>w. w \<notin> set four_substrings) ?vs) = ''Foo''"
    by (simp add: four_substrings_def)
  from county_of_pieces[OF g1 g2 g3 g4 g5, unfolded f']
  have c: "rows (filter_data repeated_suffix) ! 0 = (0, Some ''Foo'', Some 1)" by simp
  from h1 h2 h3 a b g1 g2 g3 c show ?thesis by (intro conjI)
qed

text \<open>
  C3. \<open>max_dt\<close> is the maximum of \<open>period_end\<close> over all rows of the table as loaded,
  before any filtering: it is the \<open>period_end\<close> of some row and no row has a greater one
  (null cells apart; it is null exactly when every cell is null). Every row of the output
  carries the index label of a row of the input that holds the same price and whose
  \<open>period_end\<close> is that maximum, so all output rows share one \<open>period_end\<close>.
\<close>

theorem max_period_end_rows:
  "(case max_dt df of
      None \<Rightarrow> (\<forall>(i, r) \<in> set df. period_end r = None)
    | Some m \<Rightarrow> (\<exists>(i, r) \<in> set df. period_end r = Some m) \<and>
               (\<forall>(i, r) \<in> set df. \<forall>d. period_end r = Some d \<longrightarrow> d \<le> m))
   \<and> (\<forall>(i, c, p) \<in> set (rows (filter_data df)).
        \<exists>r. (i, r) \<in> set df \<and> p = median_sale_price r \<and>
            period_end r = max_dt df \<and> period_end r \<noteq> None)"
proof (rule conjI)
  show "case max_dt df of
      None \<Rightarrow> (\<forall>(i, r) \<in> set df. period_end r = None)
    | Some m \<Rightarrow> (\<exists>(i, r) \<in> set df. period_end r = Some m) \<and>
               (\<forall>(i, r) \<in> set df. \<forall>d. period_end r = Some d \<longrightarrow> d \<le> m)"
    by (rule max_dt_cases)
next
  show "\<forall>(i, c, p) \<in> set (rows (filter_data df)).
        \<exists>r. (i, r) \<in> set df \<and> p = median_sale_price r \<and>
            period_end r = max_dt df \<and> period_end r \<noteq> None"
  proof (clarify)
    fix i c p assume "(i, c, p) \<in> set (rows (filter_data df))"
    from set_rows_filter_data[OF this] obtain r where
      "(i, r) \<in> set (select_rows df)" "p = median_sale_price r" by blast
    then show "\<exists>r. (i, r) \<in> set df \<and> p = median_sale_price r \<and>
            period_end r = max_dt df \<and> period_end r \<noteq> None"
      by (auto simp: set_select_rows)
  qed
qed

theorem max_period_end_rows_witness:
  "max_dt two_periods = Some ''2021-01-08''
   \<and> (1, Some ''Los Angeles'', Some 800000) \<in> set (rows (filter_data two_periods))
   \<and> (\<exists>r. (1, r) \<in> set two_periods \<and> Some 800000 = median_sale_price r
          \<and> period_end r = max_dt two_periods \<and> period_end r \<noteq> None)"
proof -
  have m: "max_dt two_periods = Some ''2021-01-08''"
    by (simp add: max_dt_def series_max_def)
  have mem: "(1, Some ''Los Angeles'', Some 800000) \<in> set (rows (filter_data two_periods))"
    by code_simp
  from max_period_end_rows[of two_periods] have
    "\<forall>(i, c, p) \<in> set (rows (filter_data two_periods)).
        \<exists>r. (i, r) \<in> set two_periods \<and> p = median_sale_price r \<and>
            period_end r = max_dt two_periods \<and> period_end r \<noteq> None" by (rule conjunct2)
  from bspec[OF this mem] have ex: "\<exists>r. (1, r) \<in> set two_periods \<and> Some 800000 = median_sale_price r \<and>
            period_end r = max_dt two_periods \<and> period_end r \<noteq> None" by (simp only: prod.case)
  show ?thesis by (rule conjI[OF m conjI[OF mem ex]])
qed

text \<open>
  C4. Every row of the output has a non-null \<open>median_sale_price\<close> and carries the index
  label and the price of an input row whose \<open>region_type\<close> is \<open>"county"\<close> and whose
  \<open>duration\<close> is \<open>"12 weeks"\<close>. In a table with distinct index labels (as \<open>read_csv\<close>
  builds it), a row that fails one of the three conditions is excluded: its label is not
  in the output.
\<close>

theorem only_county_12_weeks_priced:
  "(\<forall>(i, c, p) \<in> set (rows (filter_data df)).
      p \<noteq> None \<and>
      (\<exists>r. (i, r) \<in> set df \<and> region_type r = Some ''county'' \<and>
           duration r = Some ''12 weeks'' \<and> median_sale_price r = p))
   \<and> (distinct (map fst df) \<longrightarrow>
        (\<forall>(i, r) \<in> set df.
           region_type r \<noteq> Some ''county'' \<or> duration r \<noteq> Some ''12 weeks'' \<or>
           median_sale_price r = None \<longrightarrow>
           i \<notin> set (map fst (rows (filter_data df)))))"
proof (intro conjI impI)
  show "\<forall>(i, c, p) \<in> set (rows (filter_data df)).
      p \<noteq> None \<and>
      (\<exists>r. (i, r) \<in> set df \<and> region_type r = Some ''county'' \<and>
           duration r = Some ''12 weeks'' \<and> median_sale_price r = p)"
  proof (clarify)
    fix i c p assume "(i, c, p) \<in> set (rows (filter_data df))"
    from set_rows_filter_data[OF this] obtain r where
      r: "(i, r) \<in> set (select_rows df)" "p = median_sale_price r" by blast
    from r(1) have "(i, r) \<in> set df" "region_type r = Some ''county''"
      "duration r = Some ''12 weeks''" "median_sale_price r \<noteq> None"
      by (simp_all add: set_select_rows)
    with r(2) show "p \<noteq> None \<and>
      (\<exists>r. (i, r) \<in> set df \<and> region_type r = Some ''county'' \<and>
           duration r = Some ''12 weeks'' \<and> median_sale_price r = p)" by blast
  qed
next
  assume d: "distinct (map fst df)"
  show "\<forall>(i, r) \<in> set df.
           region_type r \<noteq> Some ''county'' \<or> duration r \<noteq> Some ''12 weeks'' \<or>
           median_sale_price r = None \<longrightarrow>
           i \<notin> set (map fst (rows (filter_data df)))"
  proof (clarify)
    fix i r
    assume mem: "(i, r) \<in> set df"
      and bad: "region_type r \<noteq> Some ''county'' \<or> duration r \<noteq> Some ''12 weeks'' \<or>
           median_sale_price r = None"
      and out: "i \<in> set (map fst (rows (filter_data df)))"
    from out obtain c p where "(i, c, p) \<in> set (rows (filter_data df))" by auto
    from set_rows_filter_data[OF this] obtain r' where
      r': "(i, r') \<in> set (select_rows df)" by blast
    then have in': "(i, r') \<in> set df" and ok: "region_type r' = Some ''county''"
      "duration r' = Some ''12 weeks''" "median_sale_price r' \<noteq> None"
      by (simp_all add: set_select_rows)
    from d mem in' have "r = r'" by (rule eq_key_imp_eq_value)
    with bad ok show False by simp
  qed
qed

theorem only_county_12_weeks_priced_witness:
  "(0, Some ''Los Angeles'', Some 800000) \<in> set (rows (filter_data mixed))
   \<and> (\<exists>r. (0, r) \<in> set mixed \<and> region_type r = Some ''county'' \<and>
           duration r = Some ''12 weeks'' \<and> median_sale_price r = Some 800000)
   \<and> distinct (map fst mixed)
   \<and> (1, metro_row) \<in> set mixed \<and> region_type metro_row \<noteq> Some ''county''
   \<and> 1 \<notin> set (map fst (rows (filter_data mixed)))
   \<and> (2, unpriced_row) \<in> set mixed \<and> median_sale_price unpriced_row = None
   \<and> 2 \<notin> set (map fst (rows (filter_data mixed)))"
proof -
  note t = only_county_12_weeks_priced[of mixed]
  have mem: "(0, Some ''Los Angeles'', Some 800000) \<in> set (rows (filter_data mixed))"
    unfolding rows_mixed by simp
  from bspec[OF conjunct1[OF t] mem]
  have a: "\<exists>r. (0, r) \<in> set mixed \<and> region_type r = Some ''county'' \<and>
           duration r = Some ''12 weeks'' \<and> median_sale_price r = Some 800000"
    by (simp only: prod.case; blast)
  have d: "distinct (map fst mixed)" by simp
  have m1: "(1, metro_row) \<in> set mixed" and b1: "region_type metro_row \<noteq> Some ''county''"
    by simp_all
  have m2: "(2, unpriced_row) \<in> set mixed" and b2: "median_sale_price unpriced_row = None"
    by simp_all
  note ex = mp[OF conjunct2[OF t] d]
  from bspec[OF ex m1] b1 have n1: "1 \<notin> set (map fst (rows (filter_data mixed)))"
    by (simp only: prod.case; blast)
  from bspec[OF ex m2] b2 have n2: "2 \<notin> set (map fst (rows (filter_data mixed)))"
    by (simp only: prod.case; blast)
  from mem a d m1 b1 n1 m2 b2 n2 show ?thesis by blast
qed

text \<open>
  C5. Selecting again from the selected rows changes nothing, and \<open>filter_data\<close> gives
  the same result on the selected rows as on the whole table. A table that already
  satisfies the post-conditions (every row county-level, 12 weeks, priced, with
  \<open>period_end\<close> equal to the table's maximum) is its own selection.
\<close>

theorem refilter_idempotent:
  "select_rows (select_rows T) = select_rows T
   \<and> filter_data (select_rows T) = filter_data T
   \<and> ((\<forall>(i, r) \<in> set T. region_type r = Some ''county'' \<and> duration r = Some ''12 weeks'' \<and>
          median_sale_price r \<noteq> None \<and> period_end r \<noteq> None \<and> period_end r = max_dt T)
        \<longrightarrow> select_rows T = T)"
proof (intro conjI impI)
  show "select_rows (select_rows T) = select_rows T" by (rule select_rows_idem)
  then show "filter_data (select_rows T) = filter_data T" by (rule filter_data_cong)
next
  assume "\<forall>(i, r) \<in> set T. region_type r = Some ''county'' \<and> duration r = Some ''12 weeks'' \<and>
          median_sale_price r \<noteq> None \<and> period_end r \<noteq> None \<and> period_end r = max_dt T"
  then show "select_rows T = T"
    by (subst select_rows_filter) (rule filter_True, auto)
qed

theorem refilter_idempotent_witness:
  "region_type (county_row ''2021-01-08'' ''Los Angeles County'' 800000) = Some ''county''
   \<and> duration (county_row ''2021-01-08'' ''Los Angeles County'' 800000) = Some ''12 weeks''
   \<and> median_sale_price (county_row ''2021-01-08'' ''Los Angeles County'' 800000) \<noteq> None
   \<and> period_end (county_row ''2021-01-08'' ''Los Angeles County'' 800000) = max_dt los_angeles
   \<and> select_rows los_angeles = los_angeles
   \<and> filter_data (select_rows los_angeles) = filter_data los_angeles
   \<and> select_rows two_periods = [(1, county_row ''2021-01-08'' ''Los Angeles County'' 800000)]
   \<and> filter_data (select_rows two_periods) = filter_data two_periods"
proof -
  have m: "max_dt los_angeles = Some ''2021-01-08''" by (simp add: max_dt_def series_max_def)
  have h: "\<forall>(i, r) \<in> set los_angeles. region_type r = Some ''county'' \<and> duration r = Some ''12 weeks'' \<and>
          median_sale_price r \<noteq> None \<and> period_end r \<noteq> None \<and> period_end r = max_dt los_angeles"
    by (simp add: m)
  note t = refilter_idempotent[of los_angeles]
  from t h have s: "select_rows los_angeles = los_angeles" by blast
  from t have f: "filter_data (select_rows los_angeles) = filter_data los_angeles" by blast
  have s2: "select_rows two_periods = [(1, county_row ''2021-01-08'' ''Los Angeles County'' 800000)]"
    by (simp add: select_rows_filter max_dt_def series_max_def)
  from refilter_idempotent[of two_periods]
  have f2: "filter_data (select_rows two_periods) = filter_data two_periods" by blast
  from m s f s2 f2 show ?thesis by simp
qed

text \<open>
  C6. When the response to the GET has a status from 400 to 599, \<open>fetch_data\<close> ends with
  \<open>SystemExit\<close> carrying the \<open>HTTPError\<close> of \<open>raise_for_status\<close>; the files on disk are
  what they were, and the only input/output call made is the GET: the destination is
  neither opened nor written.
\<close>

theorem error_status_no_write:
  assumes "net u = Inr r" and "400 \<le> status_code r" and "status_code r < 600"
  shows "(\<exists>msg. raise_for_status r = Inl (HTTPError msg) \<and>
            fst (fetch_data net u filepath w) = Inl (SystemExit (HTTPError msg)))
         \<and> files (snd (fetch_data net u filepath w)) = files w
         \<and> trace (snd (fetch_data net u filepath w)) = trace w @ [Get u]"
proof -
  from raise_for_status_error[OF assms(2,3)] obtain msg where
    m: "raise_for_status r = Inl (HTTPError msg)" by blast
  from fetch_data_http_error[where net=net and u=u, OF assms(1) m, of filepath w] m show ?thesis by simp
qed

theorem error_status_no_write_witness:
  "serves not_found ''http://host/data.tsv'' = Inr not_found
   \<and> 400 \<le> status_code not_found \<and> status_code not_found < 600
   \<and> fst (fetch_data (serves not_found) ''http://host/data.tsv'' ''redfin_raw.csv'' old_disk) =
       Inl (SystemExit (HTTPError ''404 Client Error: Not Found for url: http://host/data.tsv''))
   \<and> files (snd (fetch_data (serves not_found) ''http://host/data.tsv'' ''redfin_raw.csv'' old_disk))
       ''redfin_raw.csv'' = Some ''old''
   \<and> trace (snd (fetch_data (serves not_found) ''http://host/data.tsv'' ''redfin_raw.csv'' old_disk)) =
       [Get ''http://host/data.tsv'']"
proof -
  have h1: "serves not_found ''http://host/data.tsv'' = Inr not_found" by simp
  have h2: "400 \<le> status_code not_found" and h3: "status_code not_found < 600" by simp_all
  have r: "raise_for_status not_found =
      Inl (HTTPError ''404 Client Error: Not Found for url: http://host/data.tsv'')"
    by (simp add: raise_for_status_def Let_def str_nat_404)
  from error_status_no_write[where net="serves not_found" and u="''http://host/data.tsv''", OF h1 h2 h3, of "''redfin_raw.csv''" old_disk] r h1 h2 h3
  show ?thesis by simp
qed

text \<open>
  C7, as the spec words it, fails. A status outside 200..299 need not be an error for
  \<open>raise_for_status\<close>: the response \<open>300 Multiple Choices\<close> raises nothing, and its body
  is written to the destination.
\<close>

theorem system_exit_iff_non_2xx_counterexample:
  "\<not> (200 \<le> status_code multiple_choices \<and> status_code multiple_choices < 300)
   \<and> fst (fetch_data (serves multiple_choices) ''http://host/data.tsv'' ''redfin_raw.csv'' old_disk) = Inr ()
   \<and> files (snd (fetch_data (serves multiple_choices) ''http://host/data.tsv'' ''redfin_raw.csv'' old_disk))
       ''redfin_raw.csv'' = Some ''choose''"
  by (simp add: fetch_data_def fetch_data_try_def requests_get_def Let_def open_wb_def f_write_def
      raise_for_status_def)

text \<open>
  C7, amended. \<open>fetch_data\<close> ends with \<open>SystemExit\<close> if and only if there is a response and
  its status is from 400 to 599, the statuses \<open>raise_for_status\<close> treats as errors. The
  error is raised immediately (no other input/output call follows the \<open>requests.get\<close>),
  it is caught once and re-raised as \<open>SystemExit\<close> carrying the very error
  \<open>raise_for_status\<close> raised for that response, and it is never retried: whatever the
  outcome, \<open>requests.get\<close> is called once.
\<close>

theorem system_exit_iff_4xx_5xx:
  "((\<exists>e. fst (fetch_data net u filepath w) = Inl (SystemExit e)) \<longleftrightarrow>
      (\<exists>r. net u = Inr r \<and> 400 \<le> status_code r \<and> status_code r < 600))
   \<and> (\<forall>e. fst (fetch_data net u filepath w) = Inl (SystemExit e) \<longrightarrow>
         (\<exists>r. net u = Inr r \<and> raise_for_status r = Inl e) \<and>
         trace (snd (fetch_data net u filepath w)) = trace w @ [Get u])
   \<and> length (filter is_Get (trace (snd (fetch_data net u filepath w)))) =
       Suc (length (filter is_Get (trace w)))"
proof (cases "net u")
  case (Inl m)
  from fetch_data_no_response[where net=net and u=u, OF Inl, of filepath w] Inl show ?thesis by simp
next
  case (Inr r)
  show ?thesis
  proof (cases "400 \<le> status_code r \<and> status_code r < 600")
    case True
    then obtain msg where m: "raise_for_status r = Inl (HTTPError msg)"
      using raise_for_status_error[of r] by blast
    from fetch_data_http_error[where net=net and u=u, OF Inr m, of filepath w] Inr m True show ?thesis by simp
  next
    case False
    then have ok: "raise_for_status r = Inr ()" by (rule raise_for_status_ok)
    show ?thesis
    proof (cases "can_open w filepath")
      case True
      from fetch_data_written[where net=net and u=u, OF Inr ok True] Inr False show ?thesis by simp
    next
      case no: False
      from fetch_data_open_failed[where net=net and u=u, OF Inr ok no] Inr False show ?thesis by simp
    qed
  qed
qed

theorem system_exit_iff_4xx_5xx_witness:
  "fst (fetch_data (serves not_found) ''http://host/data.tsv'' ''redfin_raw.csv'' old_disk) =
       Inl (SystemExit (HTTPError ''404 Client Error: Not Found for url: http://host/data.tsv''))
   \<and> (\<exists>r. serves not_found ''http://host/data.tsv'' = Inr r \<and> 400 \<le> status_code r \<and> status_code r < 600)
   \<and> (\<exists>r. serves not_found ''http://host/data.tsv'' = Inr r \<and>
          raise_for_status r = Inl (HTTPError ''404 Client Error: Not Found for url: http://host/data.tsv''))
   \<and> trace (snd (fetch_data (serves not_found) ''http://host/data.tsv'' ''redfin_raw.csv'' old_disk)) =
       trace old_disk @ [Get ''http://host/data.tsv'']
   \<and> length (filter is_Get (trace (snd (fetch_data (serves not_found) ''http://host/data.tsv'' ''redfin_raw.csv'' old_disk)))) =
       Suc (length (filter is_Get (trace old_disk)))"
proof -
  note t = system_exit_iff_4xx_5xx[of "serves not_found" "''http://host/data.tsv''" "''redfin_raw.csv''" old_disk]
  have r: "raise_for_status not_found =
      Inl (HTTPError ''404 Client Error: Not Found for url: http://host/data.tsv'')"
    by (simp add: raise_for_status_def Let_def str_nat_404)
  have e: "fst (fetch_data (serves not_found) ''http://host/data.tsv'' ''redfin_raw.csv'' old_disk) =
       Inl (SystemExit (HTTPError ''404 Client Error: Not Found for url: http://host/data.tsv''))"
    using fetch_data_http_error[where net="serves not_found" and u="''http://host/data.tsv''", OF _ r] by simp
  from t e have a: "\<exists>r. serves not_found ''http://host/data.tsv'' = Inr r \<and> 400 \<le> status_code r \<and> status_code r < 600"
    by blast
  from t e have b: "(\<exists>r. serves not_found ''http://host/data.tsv'' = Inr r \<and>
          raise_for_status r = Inl (HTTPError ''404 Client Error: Not Found for url: http://host/data.tsv''))
       \<and> trace (snd (fetch_data (serves not_found) ''http://host/data.tsv'' ''redfin_raw.csv'' old_disk)) =
       trace old_disk @ [Get ''http://host/data.tsv'']"
    by blast
  from t have c: "length (filter is_Get (trace (snd (fetch_data (serves not_found) ''http://host/data.tsv'' ''redfin_raw.csv'' old_disk)))) =
       Suc (length (filter is_Get (trace old_disk)))" by blast
  from e a b c show ?thesis by blast
qed

text \<open>
  C8. The projection has the columns \<open>region_name\<close> and \<open>median_sale_price\<close>; the result
  has exactly the columns \<open>county\<close> and \<open>median_sale_price\<close>. Its rows are the matching
  rows of the source (county, 12 weeks, priced, at the maximum \<open>period_end\<close>), one output
  row for each, in the order of the source, each with its index label, its cleaned name
  and its price.
\<close>

theorem two_columns_source_order:
  "columns (project (select_rows df)) = [''region_name'', ''median_sale_price'']
   \<and> columns (filter_data df) = [''county'', ''median_sale_price'']
   \<and> rows (filter_data df) =
       map (\<lambda>(i, r). (i, map_option cleaned (region_name r), median_sale_price r))
         (filter (\<lambda>(i, r). region_type r = Some ''county'' \<and> duration r = Some ''12 weeks'' \<and>
                  median_sale_price r \<noteq> None \<and> period_end r \<noteq> None \<and>
                  period_end r = max_dt df) df)"
  by (simp add: columns_filter_data rows_filter_data select_rows_filter project_def)

theorem two_columns_source_order_witness:
  "columns (filter_data los_angeles) = [''county'', ''median_sale_price'']
   \<and> rows (filter_data los_angeles) = [(0, Some ''Los Angeles'', Some 800000)]"
proof -
  have c: "cleaned ''Los Angeles County'' = ''Los Angeles''" by code_simp
  have m: "max_dt los_angeles = Some ''2021-01-08''" by (simp add: max_dt_def series_max_def)
  from two_columns_source_order[of los_angeles] show ?thesis
    by (simp add: c m)
qed

text \<open>
  C9. Run over the store, \<open>filter_data\<close> returns the address of a new object holding the
  result of \<open>filter_data\<close>; every object that was in the store before the call, the input
  table among them, is the same after it.
\<close>

theorem input_table_unchanged:
  assumes "a < length h" and "h ! a = Frame df"
  shows "\<exists>a' h'. filter_data_store a h = Some (a', h') \<and> a' < length h' \<and>
           h' ! a' = Frame2 (filter_data df) \<and> take (length h) h' = h \<and> h' ! a = Frame df"
  using assms by (simp add: filter_data_store_eq nth_append)

theorem input_table_unchanged_witness:
  "(0::nat) < length [Frame los_angeles] \<and> [Frame los_angeles] ! 0 = Frame los_angeles
   \<and> (\<exists>a' h'. filter_data_store 0 [Frame los_angeles] = Some (a', h') \<and> a' < length h' \<and>
           h' ! a' = Frame2 (filter_data los_angeles) \<and>
           take (length [Frame los_angeles]) h' = [Frame los_angeles] \<and>
           h' ! 0 = Frame los_angeles)"
proof -
  have h1: "(0::nat) < length [Frame los_angeles]" by simp
  have h2: "[Frame los_angeles] ! 0 = Frame los_angeles" by simp
  from input_table_unchanged[OF h1 h2] h1 h2 show ?thesis by (intro conjI)
qed

text \<open>
  C10. On a table with no rows the maximum of \<open>period_end\<close> is null, no row is selected,
  and the result is the empty table with the columns \<open>county\<close> and \<open>median_sale_price\<close>.
\<close>

theorem empty_table:
  "max_dt [] = None \<and> select_rows [] = [] \<and>
   filter_data [] = \<lparr>columns = [''county'', ''median_sale_price''], rows = []\<rparr>"
  by (simp add: max_dt_def series_max_def select_rows_def query_period_end_def
      dropna_median_sale_price_def loc_county_12_weeks_def filter_data_def project_def
      getitem_region_name_def setitem_region_name_def clean_names_def series_str_replace_def
      rename_columns_def)

end
